theory Spec2Isabelle
  imports Main "HOL-Library.Word"
begin

section \<open>Dialogue block extraction (\<^verbatim>\<open>src/extractor.py\<close>)\<close>

subsection \<open>Strings, bytes and the character tables\<close>

text \<open>
  A Python \<^verbatim>\<open>str\<close> is a sequence of Unicode code points; a code point is a natural
  number and \<open>length\<close> counts code points. ASCII literals of the source are written
  \<open>py ''...''\<close>. A \<^verbatim>\<open>bytes\<close> object is a list of 8-bit words.
\<close>

type_synonym codepoint = nat
type_synonym pystr = "codepoint list"
type_synonym bytes = "8 word list"

definition py :: "string \<Rightarrow> pystr" where
  "py s = map of_char s"

text \<open>
  The classifications that Python reads from its Unicode database are a parameter of
  the model: \<open>isspace\<close> is \<^verbatim>\<open>str.isspace\<close> (also the class \<^verbatim>\<open>\s\<close> of \<^verbatim>\<open>re\<close>
  and the characters removed by \<^verbatim>\<open>strip()\<close> without argument), \<open>isdecimal\<close> is the
  class \<^verbatim>\<open>\d\<close>, \<open>isalnum\<close> is \<^verbatim>\<open>str.isalnum\<close> (the class \<^verbatim>\<open>\w\<close> without the
  underscore), \<open>ieq p c\<close> says that the text character \<open>c\<close> matches the pattern
  literal \<open>p\<close> under \<^verbatim>\<open>re.IGNORECASE\<close>, and \<open>lower\<close> is \<^verbatim>\<open>str.lower\<close>.
\<close>

record ucd =
  isspace :: "codepoint \<Rightarrow> bool"
  isdecimal :: "codepoint \<Rightarrow> bool"
  isalnum :: "codepoint \<Rightarrow> bool"
  ieq :: "codepoint \<Rightarrow> codepoint \<Rightarrow> bool"
  lower :: "pystr \<Rightarrow> pystr"

text \<open>
  The tables of CPython on the code points below 256. Whitespace is listed for the
  whole of Unicode; every code point from 256 on is taken to be neither a decimal
  digit nor alphanumeric and to be its own lower case, so this instance stands for
  the interpreter on Latin-1 text only.
\<close>

definition latin1_lower :: "codepoint \<Rightarrow> codepoint" where
  "latin1_lower c =
     (if (65 \<le> c \<and> c \<le> 90) \<or> (192 \<le> c \<and> c \<le> 222 \<and> c \<noteq> 215) then c + 32 else c)"

definition latin1_isspace :: "codepoint \<Rightarrow> bool" where
  "latin1_isspace c \<longleftrightarrow>
     (9 \<le> c \<and> c \<le> 13) \<or> (28 \<le> c \<and> c \<le> 32) \<or> c = 133 \<or> c = 160 \<or> c = 5760
     \<or> (8192 \<le> c \<and> c \<le> 8202) \<or> c = 8232 \<or> c = 8233 \<or> c = 8239 \<or> c = 8287
     \<or> c = 12288"

definition latin1_isalnum :: "codepoint \<Rightarrow> bool" where
  "latin1_isalnum c \<longleftrightarrow>
     (48 \<le> c \<and> c \<le> 57) \<or> (65 \<le> c \<and> c \<le> 90) \<or> (97 \<le> c \<and> c \<le> 122)
     \<or> c = 170 \<or> c = 178 \<or> c = 179 \<or> c = 181 \<or> c = 185 \<or> c = 186
     \<or> (188 \<le> c \<and> c \<le> 190) \<or> (192 \<le> c \<and> c \<le> 214) \<or> (216 \<le> c \<and> c \<le> 246)
     \<or> (248 \<le> c \<and> c \<le> 255)"

definition latin1_db :: ucd where
  "latin1_db =
     \<lparr> isspace = latin1_isspace,
       isdecimal = (\<lambda>c. 48 \<le> c \<and> c \<le> 57),
       isalnum = latin1_isalnum,
       ieq = (\<lambda>p c. latin1_lower p = latin1_lower c),
       lower = map latin1_lower \<rparr>"

subsection \<open>String methods\<close>

definition startswith :: "pystr \<Rightarrow> pystr \<Rightarrow> bool" where
  "startswith s p \<longleftrightarrow> take (length p) s = p"

definition endswith :: "pystr \<Rightarrow> pystr \<Rightarrow> bool" where
  "endswith s p \<longleftrightarrow> length p \<le> length s \<and> drop (length s - length p) s = p"

text \<open>\<^verbatim>\<open>s.lstrip()\<close>, \<^verbatim>\<open>s.rstrip()\<close> and \<^verbatim>\<open>s.strip()\<close>: whitespace is removed.\<close>

definition lstrip :: "ucd \<Rightarrow> pystr \<Rightarrow> pystr" where
  "lstrip db s = dropWhile (isspace db) s"

definition rstrip :: "ucd \<Rightarrow> pystr \<Rightarrow> pystr" where
  "rstrip db s = rev (dropWhile (isspace db) (rev s))"

definition strip :: "ucd \<Rightarrow> pystr \<Rightarrow> pystr" where
  "strip db s = rstrip db (lstrip db s)"

text \<open>
  \<^verbatim>\<open>s.lstrip(chars)\<close>: the argument is a set of characters, and leading characters
  are removed for as long as they belong to it.
\<close>

fun lstrip_chars :: "pystr \<Rightarrow> pystr \<Rightarrow> pystr" where
  "lstrip_chars chars [] = []"
| "lstrip_chars chars (c # cs) = (if c \<in> set chars then lstrip_chars chars cs else c # cs)"

text \<open>\<^verbatim>\<open>sep.join(xs)\<close>.\<close>

fun join :: "pystr \<Rightarrow> pystr list \<Rightarrow> pystr" where
  "join sep [] = []"
| "join sep [x] = x"
| "join sep (x # y # ys) = x @ sep @ join sep (y # ys)"

text \<open>
  \<^verbatim>\<open>text.splitlines()\<close>: the text is cut at every line boundary, the boundary is not
  kept, \<^verbatim>\<open>\r\n\<close> is one boundary, and a boundary at the very end opens no further
  line. \<open>cur\<close> is the line being read.
\<close>

definition is_linebreak :: "codepoint \<Rightarrow> bool" where
  "is_linebreak c \<longleftrightarrow>
     (10 \<le> c \<and> c \<le> 13) \<or> (28 \<le> c \<and> c \<le> 30) \<or> c = 133 \<or> c = 8232 \<or> c = 8233"

fun splitlines_from :: "pystr \<Rightarrow> pystr \<Rightarrow> pystr list" where
  "splitlines_from cur [] = (if cur = [] then [] else [cur])"
| "splitlines_from cur (c # cs) =
     (if c = 13 \<and> cs \<noteq> [] \<and> hd cs = 10 then cur # splitlines_from [] (tl cs)
      else if is_linebreak c then cur # splitlines_from [] cs
      else splitlines_from (cur @ [c]) cs)"

definition splitlines :: "pystr \<Rightarrow> pystr list" where
  "splitlines text = splitlines_from [] text"

subsection \<open>The two regular expressions\<close>

text \<open>
  The matchers below follow the backtracking search of \<^verbatim>\<open>re\<close> on the two patterns
  of the source. A greedy repetition first takes as many characters as it can and
  gives them back one at a time; \<open>first_some\<close> runs through the candidates in that
  order and stops at the first one for which the rest of the pattern matches.
\<close>

fun first_some :: "('a \<Rightarrow> 'b option) \<Rightarrow> 'a list \<Rightarrow> 'b option" where
  "first_some f [] = None"
| "first_some f (x # xs) = (case f x of Some y \<Rightarrow> Some y | None \<Rightarrow> first_some f xs)"

definition downfrom :: "nat \<Rightarrow> nat \<Rightarrow> nat list" where
  "downfrom hi lo = rev [lo..<Suc hi]"

text \<open>\<^verbatim>\<open>\w\<close> and \<^verbatim>\<open>\b\<close>: a word boundary lies between a word character and a
  character that is none, the two ends of the string counting as none.\<close>

definition is_word :: "ucd \<Rightarrow> codepoint \<Rightarrow> bool" where
  "is_word db c \<longleftrightarrow> isalnum db c \<or> c = 95"

definition word_boundary :: "ucd \<Rightarrow> pystr \<Rightarrow> nat \<Rightarrow> bool" where
  "word_boundary db s pos \<longleftrightarrow>
     (0 < pos \<and> pos \<le> length s \<and> is_word db (s ! (pos - 1)))
       \<noteq> (pos < length s \<and> is_word db (s ! pos))"

text \<open>
  \<^verbatim>\<open>\d+\b\<close> at the start of \<open>u\<close>: the number of digits taken, the longest run
  first. The character before the boundary is the last digit taken.
\<close>

definition digits_then_boundary :: "ucd \<Rightarrow> pystr \<Rightarrow> nat option" where
  "digits_then_boundary db u =
     first_some (\<lambda>d. if word_boundary db u d then Some d else None)
       (downfrom (length (takeWhile (isdecimal db) u)) 1)"

text \<open>
  \<^verbatim>\<open>_\<close>, the escaped name (each character compared under \<^verbatim>\<open>IGNORECASE\<close>), then
  \<^verbatim>\<open>\d+\b\<close>, at the start of \<open>t\<close>: the number of characters matched.
\<close>

definition name_then_digits :: "ucd \<Rightarrow> pystr \<Rightarrow> pystr \<Rightarrow> nat option" where
  "name_then_digits db name t =
     (if Suc (length name) \<le> length t \<and> hd t = 95
         \<and> list_all2 (ieq db) name (take (length name) (tl t))
      then map_option (\<lambda>d. Suc (length name) + d)
             (digits_then_boundary db (drop (Suc (length name)) t))
      else None)"

text \<open>
  The group \<^verbatim>\<open>(?P<id>.+_NAME\d+)\<close> at the start of \<open>s\<close>: \<^verbatim>\<open>.+\<close> takes \<open>j\<close>
  characters, none of them a line feed, the longest choice first; the result is
  the text of the group.
\<close>

definition group_id :: "ucd \<Rightarrow> pystr \<Rightarrow> pystr \<Rightarrow> pystr option" where
  "group_id db name s =
     first_some (\<lambda>j. map_option (\<lambda>n. take (j + n) s) (name_then_digits db name (drop j s)))
       (downfrom (length (takeWhile (\<lambda>c. c \<noteq> 10) s)) 1)"

text \<open>
  \<^verbatim>\<open>make_header_re(name).match(line)\<close>, that is the pattern
  \<^verbatim>\<open>^#\s*(?P<id>.+_NAME\d+)\b\<close> applied at the first character of the line:
  \<open>None\<close> when there is no match, otherwise the text of the group \<^verbatim>\<open>id\<close>.
\<close>

definition header_match :: "ucd \<Rightarrow> pystr \<Rightarrow> pystr \<Rightarrow> pystr option" where
  "header_match db name line =
     (case line of
        [] \<Rightarrow> None
      | c # rest \<Rightarrow>
          if c \<noteq> 35 then None
          else first_some (\<lambda>k. group_id db name (drop k rest))
                 (downfrom (length (takeWhile (isspace db) rest)) 0))"

text \<open>
  The marker pattern \<^verbatim>\<open>\|\s*#\s*ID\s*\|\<close> (case-sensitive) at the start of \<open>s\<close>,
  and \<^verbatim>\<open>marker_re.search(ln)\<close>, which tries every position of the line.
\<close>

definition after_spaces :: "ucd \<Rightarrow> (pystr \<Rightarrow> bool) \<Rightarrow> pystr \<Rightarrow> bool" where
  "after_spaces db k s \<longleftrightarrow>
     list_ex (\<lambda>n. k (drop n s)) (downfrom (length (takeWhile (isspace db) s)) 0)"

definition marker_at :: "ucd \<Rightarrow> pystr \<Rightarrow> pystr \<Rightarrow> bool" where
  "marker_at db block_id s \<longleftrightarrow>
     startswith s [124] \<and>
     after_spaces db (\<lambda>s1. startswith s1 [35] \<and>
       after_spaces db (\<lambda>s2. startswith s2 block_id \<and>
         after_spaces db (\<lambda>s3. startswith s3 [124]) (drop (length block_id) s2))
       (drop 1 s1)) (drop 1 s)"

definition marker_search :: "ucd \<Rightarrow> pystr \<Rightarrow> pystr \<Rightarrow> bool" where
  "marker_search db block_id ln \<longleftrightarrow>
     list_ex (\<lambda>p. marker_at db block_id (drop p ln)) [0..<Suc (length ln)]"

subsection \<open>Classifying the lines of a block\<close>

text \<open>
  One record of the result, the dictionary with the keys \<^verbatim>\<open>id\<close>, \<^verbatim>\<open>orig\<close> and
  \<^verbatim>\<open>trans\<close>.
\<close>

record item =
  id_str :: pystr
  orig :: pystr
  trans :: pystr

text \<open>The test \<^verbatim>\<open>ln.strip().startswith(';')\<close> of the two comprehensions.\<close>

definition is_commentary :: "ucd \<Rightarrow> pystr \<Rightarrow> bool" where
  "is_commentary db ln \<longleftrightarrow> startswith (strip db ln) (py '';'')"

definition orig_lines_raw :: "ucd \<Rightarrow> pystr list \<Rightarrow> pystr list" where
  "orig_lines_raw db block_lines =
     map (\<lambda>ln. rstrip db (lstrip_chars (py ''; '') ln)) (filter (is_commentary db) block_lines)"

definition orig_lines :: "ucd \<Rightarrow> pystr \<Rightarrow> pystr list \<Rightarrow> pystr list" where
  "orig_lines db block_id block_lines =
     filter (\<lambda>ln. \<not> marker_search db block_id ln) (orig_lines_raw db block_lines)"

definition trans_lines :: "ucd \<Rightarrow> pystr list \<Rightarrow> pystr list" where
  "trans_lines db block_lines =
     map (rstrip db) (filter (\<lambda>ln. \<not> is_commentary db ln \<and> strip db ln \<noteq> []) block_lines)"

text \<open>The dictionary appended to \<^verbatim>\<open>results\<close> for a block.\<close>

definition block_item :: "ucd \<Rightarrow> pystr \<Rightarrow> pystr list \<Rightarrow> item" where
  "block_item db block_id block_lines =
     \<lparr> id_str = block_id,
       orig = strip db (join [10] (orig_lines db block_id block_lines)),
       trans = strip db (join [10] (trans_lines db block_lines)) \<rparr>"

subsection \<open>The scan of \<^verbatim>\<open>extract_from_text\<close>\<close>

text \<open>
  The inner loop: from the cursor \<open>i\<close> on, lines are appended to \<open>block_lines\<close> until
  the end of the list or a line that starts with \<^verbatim>\<open>'# '\<close>. It returns the lines
  collected and the cursor.
\<close>

function collect_block :: "pystr list \<Rightarrow> nat \<Rightarrow> pystr list \<Rightarrow> pystr list \<times> nat" where
  "collect_block lines i block_lines =
     (if i < length lines \<and> \<not> startswith (lines ! i) (py ''# '')
      then collect_block lines (i + 1) (block_lines @ [lines ! i])
      else (block_lines, i))"
  by pat_completeness auto
termination
  by (relation "measure (\<lambda>(lines, i, block_lines). length lines - i)") auto

declare collect_block.simps [simp del]

text \<open>
  One iteration of the outer loop, on the cursor \<open>i\<close> and the list \<open>results\<close>; it is
  run only while \<open>i < length lines\<close>.
\<close>

definition scan_step :: "ucd \<Rightarrow> pystr \<Rightarrow> pystr list \<Rightarrow> nat \<times> item list \<Rightarrow> nat \<times> item list" where
  "scan_step db name lines st =
     (case st of (i, results) \<Rightarrow>
        (case header_match db name (lines ! i) of
           Some g \<Rightarrow>
             (case collect_block lines (i + 1) [] of (block_lines, i') \<Rightarrow>
                (i', results @ [block_item db (strip db g) block_lines]))
         | None \<Rightarrow> (i + 1, results)))"

function scan :: "ucd \<Rightarrow> pystr \<Rightarrow> pystr list \<Rightarrow> nat \<times> item list \<Rightarrow> item list" where
  "scan db name lines st =
     (if fst st < length lines then scan db name lines (scan_step db name lines st)
      else snd st)"
  by pat_completeness auto

definition extract_from_text :: "ucd \<Rightarrow> pystr \<Rightarrow> pystr \<Rightarrow> item list" where
  "extract_from_text db text name = scan db name (splitlines text) (0, [])"

subsection \<open>The encoding detector\<close>

datatype encoding = UTF8 | UTF8_SIG | UTF16 | UTF16LE | UTF16BE | GBK | LATIN1

definition ENCODINGS :: "encoding list" where
  "ENCODINGS = [UTF8, UTF8_SIG, UTF16, UTF16LE, UTF16BE, GBK, LATIN1]"

text \<open>
  The codecs of the interpreter are a parameter: \<open>cs e b\<close> is the text when
  \<^verbatim>\<open>b.decode(e)\<close> returns and \<open>None\<close> when it raises. The codec \<^verbatim>\<open>latin-1\<close> is
  written out: every byte is the code point of the same value.
\<close>

type_synonym codecs = "encoding \<Rightarrow> bytes \<Rightarrow> pystr option"

definition latin1_decode :: "bytes \<Rightarrow> pystr" where
  "latin1_decode b = map unat b"

definition decode :: "codecs \<Rightarrow> encoding \<Rightarrow> bytes \<Rightarrow> pystr option" where
  "decode cs e b = (if e = LATIN1 then Some (latin1_decode b) else cs e b)"

text \<open>
  The loop of \<^verbatim>\<open>read_text_try\<close> over the candidates still to try; \<open>None\<close> is the
  pair \<^verbatim>\<open>(None, None)\<close>. The bytes \<open>b\<close> are what \<^verbatim>\<open>open(path, 'rb').read()\<close> gave.
\<close>

fun try_encodings :: "codecs \<Rightarrow> bytes \<Rightarrow> encoding list \<Rightarrow> (pystr \<times> encoding) option" where
  "try_encodings cs b [] = None"
| "try_encodings cs b (e # es) =
     (case decode cs e b of Some t \<Rightarrow> Some (t, e) | None \<Rightarrow> try_encodings cs b es)"

definition read_text_try :: "codecs \<Rightarrow> bytes \<Rightarrow> (pystr \<times> encoding) option" where
  "read_text_try cs b = try_encodings cs b ENCODINGS"

subsection \<open>The directory walk\<close>

text \<open>
  \<^verbatim>\<open>os.walk(root)\<close> is given as the list of the triples it yields. A file comes
  with the bytes read from it, or with \<open>None\<close> when opening or reading it raises;
  the exception then leaves \<^verbatim>\<open>walk_and_extract\<close>.
\<close>

datatype error = OSError

type_synonym walk_entry = "pystr \<times> pystr list \<times> (pystr \<times> bytes option) list"

definition contains :: "pystr \<Rightarrow> pystr \<Rightarrow> bool" where
  "contains s sub \<longleftrightarrow> list_ex (\<lambda>p. startswith (drop p s) sub) [0..<Suc (length s)]"

definition skip_dir :: "ucd \<Rightarrow> pystr \<Rightarrow> bool" where
  "skip_dir db dirpath \<longleftrightarrow>
     list_ex (\<lambda>skip. contains (lower db dirpath) skip)
       [92 # py ''.git'', 92 # py ''debug'', 92 # py ''system'', 92 # py ''build'']"

definition skip_file :: "ucd \<Rightarrow> pystr \<Rightarrow> bool" where
  "skip_file db fn \<longleftrightarrow>
     \<not> list_ex (endswith (lower db fn))
         [py ''.bytes'', py ''.txt'', py ''.script'', py ''.csv'', py ''.json'']
     \<and> 46 \<in> set fn"

definition keep_item :: "item \<Rightarrow> bool" where
  "keep_item it \<longleftrightarrow> trans it \<noteq> [] \<or> orig it \<noteq> []"

fun extract_files ::
  "ucd \<Rightarrow> codecs \<Rightarrow> pystr \<Rightarrow> (pystr \<times> bytes option) list \<Rightarrow> item list \<Rightarrow> error + item list" where
  "extract_files db cs name [] out = Inr out"
| "extract_files db cs name ((fn, content) # files) out =
     (if skip_file db fn then extract_files db cs name files out
      else case content of
        None \<Rightarrow> Inl OSError
      | Some b \<Rightarrow>
          (case read_text_try cs b of
             None \<Rightarrow> extract_files db cs name files out
           | Some (text, enc) \<Rightarrow>
               extract_files db cs name files
                 (out @ filter keep_item (extract_from_text db text name))))"

fun walk_dirs ::
  "ucd \<Rightarrow> codecs \<Rightarrow> pystr \<Rightarrow> walk_entry list \<Rightarrow> item list \<Rightarrow> error + item list" where
  "walk_dirs db cs name [] out = Inr out"
| "walk_dirs db cs name ((dirpath, dirs, files) # rest) out =
     (if skip_dir db dirpath then walk_dirs db cs name rest out
      else case extract_files db cs name files out of
        Inl e \<Rightarrow> Inl e
      | Inr out' \<Rightarrow> walk_dirs db cs name rest out')"

definition walk_and_extract :: "ucd \<Rightarrow> codecs \<Rightarrow> walk_entry list \<Rightarrow> pystr \<Rightarrow> error + item list" where
  "walk_and_extract db cs root name = walk_dirs db cs name root []"

text \<open>
  A codec table for the examples. It is CPython's on the byte strings of odd
  length whose bytes are all below \<open>0x80\<close>: there \<^verbatim>\<open>utf-8\<close>, \<^verbatim>\<open>utf-8-sig\<close>
  and \<^verbatim>\<open>gbk\<close> give the ASCII text and the three \<^verbatim>\<open>utf-16\<close> codecs raise.
\<close>

definition ascii_codecs :: codecs where
  "ascii_codecs e b =
     (if (e = UTF8 \<or> e = UTF8_SIG \<or> e = GBK) \<and> list_all (\<lambda>x. x < 0x80) b
      then Some (map unat b) else None)"

subsection \<open>Example inputs\<close>

text \<open>The five lines of the scenario of the specification, joined by line feeds.\<close>

definition sherry_text :: pystr where
  "sherry_text = join [10]
     [py ''# DLG_Sherry001'', py ''; Hello there, traveler.'', py ''Hallo da, Reisender.'',
      py ''# DLG_Other002'', py ''; not matched'']"

subsection \<open>The blocks, as the specification describes them\<close>

text \<open>
  The extent of the block whose header is line \<open>h\<close>: the lines after the header,
  up to the first one that starts with \<^verbatim>\<open>'# '\<close> or to the end of the input.
\<close>

definition block_extent :: "pystr list \<Rightarrow> nat \<Rightarrow> pystr list" where
  "block_extent lines h = takeWhile (\<lambda>ln. \<not> startswith ln (py ''# '')) (drop (Suc h) lines)"

text \<open>
  The header lines at which a block starts, from line \<open>i\<close> on: the first line that
  matches the header pattern starts a block, and the search goes on at the line
  that ended this block.
\<close>

function block_starts :: "ucd \<Rightarrow> pystr \<Rightarrow> pystr list \<Rightarrow> nat \<Rightarrow> nat list" where
  "block_starts db name lines i =
     (if i < length lines
      then (if header_match db name (lines ! i) = None then block_starts db name lines (Suc i)
            else i # block_starts db name lines (Suc i + length (block_extent lines i)))
      else [])"
  by pat_completeness auto
termination
  by (relation "measure (\<lambda>(db, name, lines, i). length lines - i)") auto

declare block_starts.simps [simp del]

text \<open>
  A text with two headers for \<^verbatim>\<open>Sherry\<close>, the first directly followed by the
  second, and its bytes in ASCII.
\<close>

definition two_header_text :: pystr where
  "two_header_text = join [10] [py ''# DLG_Sherry001'', py ''# DLG_Sherry002'', py ''; Hi.'']"

definition encode_ascii :: "pystr \<Rightarrow> bytes" where
  "encode_ascii s = map of_nat s"

subsection \<open>The walk, as the specification describes it\<close>

text \<open>
  The texts that reach the block extractor, in the order of the walk: those of the
  files of the directories that are not skipped, whose name passes the extension
  filter and whose bytes decode.
\<close>

definition file_texts :: "ucd \<Rightarrow> codecs \<Rightarrow> (pystr \<times> bytes option) list \<Rightarrow> pystr list" where
  "file_texts db cs files =
     concat (map (\<lambda>(fn, content).
       if skip_file db fn then []
       else case content of
         None \<Rightarrow> []
       | Some b \<Rightarrow> (case read_text_try cs b of None \<Rightarrow> [] | Some (text, enc) \<Rightarrow> [text])) files)"

definition scanned_texts :: "ucd \<Rightarrow> codecs \<Rightarrow> walk_entry list \<Rightarrow> pystr list" where
  "scanned_texts db cs root =
     concat (map (\<lambda>(dirpath, dirs, files).
       if skip_dir db dirpath then [] else file_texts db cs files) root)"

section \<open>Properties\<close>

subsection \<open>Literals\<close>

lemma py_semicolon_space: "py ''; '' = [59, 32]"
  by (simp add: py_def)

subsection \<open>The cursor\<close>

lemma collect_block_cursor:
  "i \<le> length lines \<Longrightarrow>
     i \<le> snd (collect_block lines i bl) \<and> snd (collect_block lines i bl) \<le> length lines"
proof (induction lines i bl rule: collect_block.induct)
  case (1 lines i bl)
  show ?case
  proof (cases "i < length lines \<and> \<not> startswith (lines ! i) (py ''# '')")
    case True
    with 1 have "i + 1 \<le> snd (collect_block lines (i + 1) (bl @ [lines ! i]))
      \<and> snd (collect_block lines (i + 1) (bl @ [lines ! i])) \<le> length lines"
      by simp
    with True show ?thesis
      by (simp add: collect_block.simps [of lines i bl])
  next
    case False
    with 1 show ?thesis
      by (auto simp add: collect_block.simps [of lines i bl])
  qed
qed

lemma scan_step_cursor:
  assumes "fst st < length lines"
  shows "fst st < fst (scan_step db name lines st)
    \<and> fst (scan_step db name lines st) \<le> length lines"
proof (cases st)
  case (Pair i results)
  with assms have i: "i + 1 \<le> length lines"
    by simp
  from collect_block_cursor [OF i, of "[]"] Pair show ?thesis
    by (auto simp add: scan_step_def split: option.splits prod.splits)
qed

termination scan
proof (relation "measure (\<lambda>(db, name, lines, st). length lines - fst st)")
  show "wf (measure (\<lambda>(db, name, lines, st). length lines - fst st))"
    by simp
next
  fix db :: ucd and name :: pystr and lines :: "pystr list" and st :: "nat \<times> item list"
  assume "fst st < length lines"
  from scan_step_cursor [OF this, of db name]
  have "length lines - fst (scan_step db name lines st) < length lines - fst st"
    by arith
  then show "((db, name, lines, scan_step db name lines st), (db, name, lines, st))
    \<in> measure (\<lambda>(db, name, lines, st). length lines - fst st)"
    by simp
qed

declare scan.simps [simp del]

subsection \<open>The encoding detector\<close>

lemma try_encodings_latin1:
  "LATIN1 \<in> set es \<Longrightarrow> \<exists>t e. try_encodings cs b es = Some (t, e)"
  by (induction es) (auto simp add: decode_def split: option.splits)

text \<open>
  Claim C3. Whatever the other codecs do and whatever the bytes are, the loop of
  \<^verbatim>\<open>read_text_try\<close> returns a text and an encoding, never the pair
  \<^verbatim>\<open>(None, None)\<close>: the last candidate, \<^verbatim>\<open>latin-1\<close>, decodes every byte string.
\<close>

theorem read_text_try_never_none:
  "\<exists>text enc. read_text_try cs b = Some (text, enc)"
  unfolding read_text_try_def
  by (rule try_encodings_latin1) (simp add: ENCODINGS_def)

lemma try_encodings_first:
  "try_encodings cs b es = Some (t, e) \<Longrightarrow>
     \<exists>k<length es. es ! k = e \<and> decode cs e b = Some t \<and> (\<forall>j<k. decode cs (es ! j) b = None)"
proof (induction es)
  case Nil
  then show ?case by simp
next
  case (Cons x es)
  show ?case
  proof (cases "decode cs x b")
    case None
    with Cons.prems have "try_encodings cs b es = Some (t, e)"
      by simp
    from Cons.IH [OF this] obtain k where k: "k < length es" "es ! k = e"
      "decode cs e b = Some t" "\<forall>j<k. decode cs (es ! j) b = None"
      by blast
    have "\<forall>j<Suc k. decode cs ((x # es) ! j) b = None"
    proof (intro allI impI)
      fix j assume "j < Suc k"
      with k(4) None show "decode cs ((x # es) ! j) b = None"
        by (cases j) simp_all
    qed
    with k show ?thesis
      by (intro exI [of _ "Suc k"]) simp
  next
    case (Some u)
    with Cons.prems have "u = t" "x = e"
      by simp_all
    with Some show ?thesis
      by (intro exI [of _ 0]) simp
  qed
qed

text \<open>
  Claim C4. The candidates are tried in the order \<^verbatim>\<open>utf-8\<close>, \<^verbatim>\<open>utf-8-sig\<close>,
  \<^verbatim>\<open>utf-16\<close>, \<^verbatim>\<open>utf-16le\<close>, \<^verbatim>\<open>utf-16be\<close>, \<^verbatim>\<open>gbk\<close>, \<^verbatim>\<open>latin-1\<close>, and the
  detector returns the text and the name of the first one under which decoding
  succeeds: every candidate listed before the one returned fails on the bytes.
\<close>

theorem read_text_try_first_success:
  "ENCODINGS = [UTF8, UTF8_SIG, UTF16, UTF16LE, UTF16BE, GBK, LATIN1] \<and>
   (\<exists>k<length ENCODINGS. \<exists>t.
      read_text_try cs b = Some (t, ENCODINGS ! k)
      \<and> decode cs (ENCODINGS ! k) b = Some t
      \<and> (\<forall>j<k. decode cs (ENCODINGS ! j) b = None))"
proof -
  obtain t e where r: "try_encodings cs b ENCODINGS = Some (t, e)"
    using try_encodings_latin1 [of ENCODINGS cs b] by (auto simp add: ENCODINGS_def)
  from try_encodings_first [OF r] obtain k where "k < length ENCODINGS" "ENCODINGS ! k = e"
    "decode cs e b = Some t" "\<forall>j<k. decode cs (ENCODINGS ! j) b = None"
    by blast
  with r have "\<exists>k<length ENCODINGS. \<exists>t.
      read_text_try cs b = Some (t, ENCODINGS ! k)
      \<and> decode cs (ENCODINGS ! k) b = Some t
      \<and> (\<forall>j<k. decode cs (ENCODINGS ! j) b = None)"
    unfolding read_text_try_def by blast
  then show ?thesis
    by (simp add: ENCODINGS_def)
qed

text \<open>
  The byte \<open>0x41\<close> decodes under \<^verbatim>\<open>utf-8\<close>, \<^verbatim>\<open>utf-8-sig\<close>, \<^verbatim>\<open>gbk\<close> and
  \<^verbatim>\<open>latin-1\<close>; the detector answers \<^verbatim>\<open>utf-8\<close>, the earliest of them.
\<close>

theorem read_text_try_first_success_witness:
  "read_text_try ascii_codecs [0x41] = Some ([65], UTF8)"
proof -
  from read_text_try_first_success [of ascii_codecs "[0x41]"]
  obtain k t where k: "read_text_try ascii_codecs [0x41] = Some (t, ENCODINGS ! k)"
    "decode ascii_codecs (ENCODINGS ! k) [0x41] = Some t"
    "\<forall>j<k. decode ascii_codecs (ENCODINGS ! j) [0x41] = None"
    by blast
  have d0: "decode ascii_codecs (ENCODINGS ! 0) [0x41] = Some [65]"
    by (simp add: ENCODINGS_def decode_def ascii_codecs_def)
  have "k = 0"
  proof (rule ccontr)
    assume "k \<noteq> 0"
    then have "0 < k" by simp
    with k(3) have "decode ascii_codecs (ENCODINGS ! 0) [0x41] = None"
      by blast
    with d0 show False by simp
  qed
  with k d0 show ?thesis
    by (simp add: ENCODINGS_def)
qed

subsection \<open>Evaluating the model on Latin-1 text\<close>

lemma latin1_db_simps:
  "isspace latin1_db = latin1_isspace"
  "isdecimal latin1_db = (\<lambda>c. 48 \<le> c \<and> c \<le> 57)"
  "isalnum latin1_db = latin1_isalnum"
  "ieq latin1_db = (\<lambda>p c. latin1_lower p = latin1_lower c)"
  "lower latin1_db = map latin1_lower"
  by (simp_all add: latin1_db_def)

lemmas latin1_tables = latin1_db_simps latin1_isspace_def latin1_isalnum_def latin1_lower_def

lemmas matcher_defs = header_match_def group_id_def name_then_digits_def
  digits_then_boundary_def word_boundary_def is_word_def downfrom_def
  marker_search_def marker_at_def after_spaces_def startswith_def

lemmas string_defs = py_def strip_def lstrip_def rstrip_def startswith_def

lemmas block_defs = block_item_def orig_lines_def orig_lines_raw_def trans_lines_def
  is_commentary_def

subsection \<open>The scenario of the specification\<close>

lemma sherry_lines:
  "splitlines sherry_text =
     [py ''# DLG_Sherry001'', py ''; Hello there, traveler.'', py ''Hallo da, Reisender.'',
      py ''# DLG_Other002'', py ''; not matched'']"
  by (simp add: sherry_text_def splitlines_def is_linebreak_def py_def)

lemma sherry_header:
  "header_match latin1_db (py ''Sherry'') (py ''# DLG_Sherry001'') = Some (py ''DLG_Sherry001'')"
  by (simp add: py_def matcher_defs latin1_tables)

lemma other_header:
  "header_match latin1_db (py ''Sherry'') (py ''# DLG_Other002'') = None"
  by (simp add: py_def matcher_defs latin1_tables)

lemma not_matched_header:
  "header_match latin1_db (py ''Sherry'') (py ''; not matched'') = None"
  by (simp add: py_def matcher_defs latin1_tables)

lemma sherry_collect:
  "collect_block [py ''# DLG_Sherry001'', py ''; Hello there, traveler.'', py ''Hallo da, Reisender.'',
      py ''# DLG_Other002'', py ''; not matched''] (0 + 1) []
   = ([py ''; Hello there, traveler.'', py ''Hallo da, Reisender.''], 3)"
  by (simp add: collect_block.simps startswith_def py_def)

lemma sherry_item:
  "block_item latin1_db (strip latin1_db (py ''DLG_Sherry001'')) [py ''; Hello there, traveler.'', py ''Hallo da, Reisender.'']
    = \<lparr>id_str = py ''DLG_Sherry001'', orig = py ''Hello there, traveler.'',
          trans = py ''Hallo da, Reisender.''\<rparr>"
  by (simp add: block_defs string_defs matcher_defs latin1_tables)


lemma sherry_step0:
  "scan_step latin1_db (py ''Sherry'')
     [py ''# DLG_Sherry001'', py ''; Hello there, traveler.'', py ''Hallo da, Reisender.'',
      py ''# DLG_Other002'', py ''; not matched''] (0, [])
   = (3, [\<lparr>id_str = py ''DLG_Sherry001'', orig = py ''Hello there, traveler.'',
          trans = py ''Hallo da, Reisender.''\<rparr>])"
  using sherry_collect by (simp add: scan_step_def sherry_header sherry_item)

lemma sherry_step3:
  "scan_step latin1_db (py ''Sherry'')
     [py ''# DLG_Sherry001'', py ''; Hello there, traveler.'', py ''Hallo da, Reisender.'',
      py ''# DLG_Other002'', py ''; not matched''] (3, rs) = (4, rs)"
  by (simp add: scan_step_def other_header)

lemma sherry_step4:
  "scan_step latin1_db (py ''Sherry'')
     [py ''# DLG_Sherry001'', py ''; Hello there, traveler.'', py ''Hallo da, Reisender.'',
      py ''# DLG_Other002'', py ''; not matched''] (4, rs) = (5, rs)"
  by (simp add: scan_step_def not_matched_header)

text \<open>
  Claim C1. For the name \<^verbatim>\<open>Sherry\<close> and the five-line text of the scenario,
  \<^verbatim>\<open>extract_from_text\<close> returns exactly one record, with the id
  \<^verbatim>\<open>DLG_Sherry001\<close>, the original \<^verbatim>\<open>Hello there, traveler.\<close> and the translation
  \<^verbatim>\<open>Hallo da, Reisender.\<close>; the line \<^verbatim>\<open># DLG_Other002\<close> does not match the
  header pattern, so no block starts there.
\<close>

theorem sherry_scenario:
  "extract_from_text latin1_db sherry_text (py ''Sherry'')
     = [\<lparr>id_str = py ''DLG_Sherry001'', orig = py ''Hello there, traveler.'',
          trans = py ''Hallo da, Reisender.''\<rparr>]
   \<and> header_match latin1_db (py ''Sherry'') (py ''# DLG_Other002'') = None"
  by (simp add: extract_from_text_def sherry_lines scan.simps
      sherry_step0 sherry_step3 sherry_step4 other_header)

subsection \<open>The scan\<close>

lemma collect_block_eq:
  "collect_block lines i bl =
     (bl @ takeWhile (\<lambda>ln. \<not> startswith ln (py ''# '')) (drop i lines),
      i + length (takeWhile (\<lambda>ln. \<not> startswith ln (py ''# '')) (drop i lines)))"
proof (induction lines i bl rule: collect_block.induct)
  case (1 lines i bl)
  show ?case
  proof (cases "i < length lines")
    case False
    then show ?thesis
      by (simp add: collect_block.simps [of lines i bl])
  next
    case True
    then have d: "drop i lines = lines ! i # drop (Suc i) lines"
      by (simp add: Cons_nth_drop_Suc)
    show ?thesis
    proof (cases "startswith (lines ! i) (py ''# '')")
      case True
      with d show ?thesis
        by (simp add: collect_block.simps [of lines i bl])
    next
      case False
      with \<open>i < length lines\<close> 1 d show ?thesis
        by (simp add: collect_block.simps [of lines i bl])
    qed
  qed
qed

lemma scan_step_eq:
  "scan_step db name lines (i, rs) =
     (case header_match db name (lines ! i) of
        None \<Rightarrow> (i + 1, rs)
      | Some g \<Rightarrow> (i + 1 + length (block_extent lines i),
                   rs @ [block_item db (strip db g) (block_extent lines i)]))"
  by (simp add: scan_step_def collect_block_eq block_extent_def split: option.splits)

lemma scan_iterates:
  "fst st \<le> length lines \<Longrightarrow>
     \<exists>n\<le>length lines - fst st.
       fst ((scan_step db name lines ^^ n) st) = length lines
       \<and> scan db name lines st = snd ((scan_step db name lines ^^ n) st)"
proof (induction db name lines st rule: scan.induct)
  case (1 db name lines st)
  show ?case
  proof (cases "fst st < length lines")
    case False
    with "1.prems" have "fst st = length lines"
      by simp
    then show ?thesis
      by (intro exI [of _ 0]) (simp add: scan.simps [of db name lines st])
  next
    case True
    from scan_step_cursor [OF True, of db name]
    have c: "fst st < fst (scan_step db name lines st)"
      "fst (scan_step db name lines st) \<le> length lines"
      by simp_all
    from "1.IH" [OF True c(2)] obtain n
      where n: "n \<le> length lines - fst (scan_step db name lines st)"
        "fst ((scan_step db name lines ^^ n) (scan_step db name lines st)) = length lines"
        "scan db name lines (scan_step db name lines st)
          = snd ((scan_step db name lines ^^ n) (scan_step db name lines st))"
      by blast
    from n(1) c have "Suc n \<le> length lines - fst st"
      by arith
    moreover from n(2) have "fst ((scan_step db name lines ^^ Suc n) st) = length lines"
      by (simp add: funpow_swap1)
    moreover from n(3) True have "scan db name lines st = snd ((scan_step db name lines ^^ Suc n) st)"
      by (simp add: funpow_swap1 scan.simps [of db name lines st])
    ultimately show ?thesis
      by blast
  qed
qed

text \<open>
  Claim C10. \<^verbatim>\<open>extract_from_text\<close> terminates. One iteration of the outer loop,
  run at a cursor inside the list, moves the cursor strictly forward and not past
  the end: by one on a line that is no header, and past the header and every
  collected line on a header. So at most as many iterations as there are lines
  bring the cursor to the end of the list, and the result is the list of records
  held then.
\<close>

theorem extract_from_text_terminates:
  "(i < length lines \<longrightarrow>
      i < fst (scan_step db name lines (i, rs))
      \<and> fst (scan_step db name lines (i, rs)) \<le> length lines
      \<and> fst (scan_step db name lines (i, rs)) =
          (if header_match db name (lines ! i) = None then i + 1
           else i + 1 + length (block_extent lines i)))
   \<and> (\<exists>n\<le>length (splitlines text).
        fst ((scan_step db name (splitlines text) ^^ n) (0, [])) = length (splitlines text)
        \<and> extract_from_text db text name
            = snd ((scan_step db name (splitlines text) ^^ n) (0, [])))"
proof (intro conjI impI)
  assume "i < length lines"
  then have "fst (i, rs) < length lines"
    by simp
  from scan_step_cursor [OF this, of db name]
  show "i < fst (scan_step db name lines (i, rs))"
    and "fst (scan_step db name lines (i, rs)) \<le> length lines"
    by simp_all
  show "fst (scan_step db name lines (i, rs)) =
          (if header_match db name (lines ! i) = None then i + 1
           else i + 1 + length (block_extent lines i))"
    by (simp add: scan_step_eq split: option.splits)
next
  from scan_iterates [of "(0, [])" "splitlines text" db name]
  show "\<exists>n\<le>length (splitlines text).
        fst ((scan_step db name (splitlines text) ^^ n) (0, [])) = length (splitlines text)
        \<and> extract_from_text db text name
            = snd ((scan_step db name (splitlines text) ^^ n) (0, []))"
    by (simp add: extract_from_text_def)
qed

lemma scan_blocks:
  "scan db name lines (i, rs) =
     rs @ map (\<lambda>h. block_item db (strip db (the (header_match db name (lines ! h))))
                  (block_extent lines h))
            (block_starts db name lines i)"
proof (induction db name lines i arbitrary: rs rule: block_starts.induct)
  case (1 db name lines i)
  show ?case
  proof (cases "i < length lines")
    case False
    then show ?thesis
      by (simp add: scan.simps [of db name lines "(i, rs)"] block_starts.simps [of db name lines i])
  next
    case True
    show ?thesis
    proof (cases "header_match db name (lines ! i)")
      case None
      with True "1.IH"(1) [of rs] show ?thesis
        by (simp add: scan.simps [of db name lines "(i, rs)"]
            block_starts.simps [of db name lines i] scan_step_eq)
    next
      case (Some g)
      with True "1.IH"(2) [of "rs @ [block_item db (strip db g) (block_extent lines i)]"]
      show ?thesis
        by (simp add: scan.simps [of db name lines "(i, rs)"]
            block_starts.simps [of db name lines i] scan_step_eq)
    qed
  qed
qed

lemma block_starts_headers:
  "h \<in> set (block_starts db name lines i) \<Longrightarrow>
     i \<le> h \<and> h < length lines \<and> header_match db name (lines ! h) \<noteq> None"
proof (induction db name lines i rule: block_starts.induct)
  case (1 db name lines i)
  show ?case
  proof (cases "i < length lines")
    case False
    with "1.prems" show ?thesis
      by (simp add: block_starts.simps [of db name lines i])
  next
    case True
    show ?thesis
    proof (cases "header_match db name (lines ! i) = None")
      case n: True
      with True "1.prems" have "h \<in> set (block_starts db name lines (Suc i))"
        by (simp add: block_starts.simps [of db name lines i])
      from "1.IH"(1) [OF True n this] show ?thesis
        by simp
    next
      case n: False
      with True "1.prems" have "h = i \<or> h \<in> set (block_starts db name lines
        (Suc i + length (block_extent lines i)))"
        by (simp add: block_starts.simps [of db name lines i])
      then show ?thesis
      proof
        assume "h = i"
        with True n show ?thesis by simp
      next
        assume "h \<in> set (block_starts db name lines (Suc i + length (block_extent lines i)))"
        from "1.IH"(2) [OF True n this] show ?thesis
          by simp
      qed
    qed
  qed
qed

lemma block_starts_apart:
  "sorted_wrt (\<lambda>h h'. h + length (block_extent lines h) < h') (block_starts db name lines i)"
proof (induction db name lines i rule: block_starts.induct)
  case (1 db name lines i)
  show ?case
  proof (cases "i < length lines")
    case False
    then show ?thesis
      by (simp add: block_starts.simps [of db name lines i])
  next
    case True
    show ?thesis
    proof (cases "header_match db name (lines ! i) = None")
      case n: True
      with True "1.IH"(1) show ?thesis
        by (simp add: block_starts.simps [of db name lines i])
    next
      case n: False
      have apart: "\<forall>h'\<in>set (block_starts db name lines (Suc i + length (block_extent lines i))).
        i + length (block_extent lines i) < h'"
      proof
        fix h'
        assume "h' \<in> set (block_starts db name lines (Suc i + length (block_extent lines i)))"
        from block_starts_headers [OF this]
        show "i + length (block_extent lines i) < h'"
          by simp
      qed
      from n obtain g where g: "header_match db name (lines ! i) = Some g"
        by auto
      from "1.IH"(2) [OF True n]
      have "sorted_wrt (\<lambda>h h'. h + length (block_extent lines h) < h')
        (block_starts db name lines (Suc i + length (block_extent lines i)))" .
      with True g apart show ?thesis
        by (simp add: block_starts.simps [of db name lines i])
    qed
  qed
qed

text \<open>
  Claim C2. For every text and name, the records of \<^verbatim>\<open>extract_from_text\<close>
  are, in order, those of the blocks that start at the header lines
  \<open>block_starts\<close>; the raw lines of the block of header \<open>h\<close> are exactly
  \<open>block_extent lines h\<close>: the lines after the header up to, and without, the
  first later line that starts with \<^verbatim>\<open>'# '\<close>, or up to the end of the input.
  Whether that line matches the header pattern plays no part. Every block start
  is a line that matches the header pattern, and the next block starts after the
  extent of the one before.
\<close>

theorem block_extent_exact:
  "extract_from_text db text name =
     map (\<lambda>h. block_item db (strip db (the (header_match db name (splitlines text ! h))))
                (block_extent (splitlines text) h))
       (block_starts db name (splitlines text) 0)
   \<and> (\<forall>h\<in>set (block_starts db name (splitlines text) 0).
        h < length (splitlines text) \<and> header_match db name (splitlines text ! h) \<noteq> None)
   \<and> sorted_wrt (\<lambda>h h'. h + length (block_extent (splitlines text) h) < h')
        (block_starts db name (splitlines text) 0)"
  using block_starts_headers [of _ db name "splitlines text" 0]
  by (auto simp add: extract_from_text_def scan_blocks block_starts_apart)


lemma sherry_block_extent:
  "block_extent [py ''# DLG_Sherry001'', py ''; Hello there, traveler.'', py ''Hallo da, Reisender.'',
      py ''# DLG_Other002'', py ''; not matched''] 0
   = [py ''; Hello there, traveler.'', py ''Hallo da, Reisender.'']"
  by (simp add: block_extent_def startswith_def py_def)

lemma sherry_block_starts:
  "block_starts latin1_db (py ''Sherry'')
     [py ''# DLG_Sherry001'', py ''; Hello there, traveler.'', py ''Hallo da, Reisender.'',
      py ''# DLG_Other002'', py ''; not matched''] 0 = [0]"
proof -
  let ?lines = "[py ''# DLG_Sherry001'', py ''; Hello there, traveler.'',
    py ''Hallo da, Reisender.'', py ''# DLG_Other002'', py ''; not matched'']"
  have "block_starts latin1_db (py ''Sherry'') ?lines 5 = []"
    by (simp add: block_starts.simps [of _ _ _ 5])
  then have "block_starts latin1_db (py ''Sherry'') ?lines 4 = []"
    by (simp add: block_starts.simps [of _ _ _ 4] not_matched_header)
  then have "block_starts latin1_db (py ''Sherry'') ?lines 3 = []"
    by (simp add: block_starts.simps [of _ _ _ 3] other_header)
  then have "block_starts latin1_db (py ''Sherry'') ?lines (Suc (Suc (Suc 0))) = []"
    by (simp only: numeral_3_eq_3)
  then show ?thesis
    by (simp add: block_starts.simps [of _ _ _ 0] sherry_header sherry_block_extent)
qed

text \<open>
  In the scenario the first iteration takes the cursor from line 0, a header, to
  line 3, the line that ends the block.
\<close>

theorem extract_from_text_terminates_witness:
  "0 < fst (scan_step latin1_db (py ''Sherry'') (splitlines sherry_text) (0, []))
   \<and> fst (scan_step latin1_db (py ''Sherry'') (splitlines sherry_text) (0, []))
       \<le> length (splitlines sherry_text)
   \<and> fst (scan_step latin1_db (py ''Sherry'') (splitlines sherry_text) (0, [])) = 3"
proof -
  have h: "0 < length (splitlines sherry_text)"
    by (simp add: sherry_lines)
  have n: "header_match latin1_db (py ''Sherry'') (splitlines sherry_text ! 0) \<noteq> None"
    by (simp add: sherry_lines sherry_header)
  have e: "length (block_extent (splitlines sherry_text) 0) = 2"
    by (simp add: sherry_lines sherry_block_extent)
  from extract_from_text_terminates
    [of 0 "splitlines sherry_text" latin1_db "py ''Sherry''" "[]" sherry_text] h n e
  show ?thesis
    by simp
qed

text \<open>
  In the scenario the only block starts at line 0 and holds lines 1 and 2; line 3
  ends it without being a header for the name.
\<close>

theorem block_extent_exact_witness:
  "extract_from_text latin1_db sherry_text (py ''Sherry'')
     = [block_item latin1_db (py ''DLG_Sherry001'')
          [py ''; Hello there, traveler.'', py ''Hallo da, Reisender.'']]
   \<and> block_starts latin1_db (py ''Sherry'') (splitlines sherry_text) 0 = [0]"
proof -
  have s: "strip latin1_db (py ''DLG_Sherry001'') = py ''DLG_Sherry001''"
    by (simp add: string_defs latin1_tables)
  from block_extent_exact [of latin1_db sherry_text "py ''Sherry''"] s show ?thesis
    by (simp add: sherry_lines sherry_block_starts sherry_block_extent sherry_header)
qed

subsection \<open>The header pattern\<close>

lemma first_some_None_iff:
  "first_some f xs = None \<longleftrightarrow> (\<forall>x\<in>set xs. f x = None)"
  by (induction xs) (auto split: option.splits)

lemma first_some_found:
  "x \<in> set xs \<Longrightarrow> f x \<noteq> None \<Longrightarrow> first_some f xs \<noteq> None"
  by (auto simp add: first_some_None_iff)

lemma set_downfrom: "set (downfrom hi lo) = {lo..hi}"
  by (auto simp add: downfrom_def)

lemma takeWhile_prefix_length:
  "list_all P xs \<Longrightarrow> length xs \<le> length (takeWhile P (xs @ ys))"
  by (induction xs) simp_all

lemma digits_then_boundary_found:
  assumes "ds \<noteq> []" and "list_all (isdecimal db) ds"
    and "is_word db (last ds) \<noteq> (rest \<noteq> [] \<and> is_word db (hd rest))"
  shows "digits_then_boundary db (ds @ rest) \<noteq> None"
proof -
  let ?d = "length ds"
  from assms(1) have last: "(ds @ rest) ! (?d - 1) = last ds"
    by (simp add: nth_append last_conv_nth)
  have nxt: "?d < length (ds @ rest) \<and> is_word db ((ds @ rest) ! ?d)
      \<longleftrightarrow> rest \<noteq> [] \<and> is_word db (hd rest)"
    by (cases rest) (simp_all add: nth_append)
  from assms(1) have "0 < ?d" by simp
  with last nxt assms(3) have wb: "word_boundary db (ds @ rest) ?d"
    unfolding word_boundary_def by simp
  from assms(2) have "?d \<le> length (takeWhile (isdecimal db) (ds @ rest))"
    by (rule takeWhile_prefix_length)
  moreover from assms(1) have "1 \<le> ?d"
    by (cases ds) simp_all
  ultimately have "?d \<in> set (downfrom (length (takeWhile (isdecimal db) (ds @ rest))) 1)"
    by (simp add: set_downfrom)
  moreover from wb
  have "(if word_boundary db (ds @ rest) ?d then Some ?d else None) \<noteq> None"
    by simp
  ultimately show ?thesis
    unfolding digits_then_boundary_def by (rule first_some_found)
qed

lemma name_then_digits_found:
  assumes "list_all2 (ieq db) name nm" and "digits_then_boundary db u \<noteq> None"
  shows "name_then_digits db name (95 # nm @ u) \<noteq> None"
proof -
  from assms(1) have len: "length nm = length name"
    by (simp add: list_all2_lengthD)
  with assms show ?thesis
    by (auto simp add: name_then_digits_def)
qed

lemma group_id_found:
  assumes "pre \<noteq> []" and "10 \<notin> set pre" and "name_then_digits db name t \<noteq> None"
  shows "group_id db name (pre @ t) \<noteq> None"
proof -
  from assms(2) have "list_all (\<lambda>c. c \<noteq> 10) pre"
    by (auto simp add: list_all_iff)
  then have "length pre \<le> length (takeWhile (\<lambda>c. c \<noteq> 10) (pre @ t))"
    by (rule takeWhile_prefix_length)
  with assms(1) have "length pre \<in> set (downfrom (length (takeWhile (\<lambda>c. c \<noteq> 10) (pre @ t))) 1)"
    by (cases pre) (simp_all add: set_downfrom)
  moreover from assms(3)
  have "map_option (\<lambda>n. take (length pre + n) (pre @ t))
      (name_then_digits db name (drop (length pre) (pre @ t))) \<noteq> None"
    by simp
  ultimately show ?thesis
    unfolding group_id_def by (rule first_some_found)
qed

lemma header_match_found:
  assumes "list_all (isspace db) ws" and "group_id db name s \<noteq> None"
  shows "header_match db name (35 # ws @ s) \<noteq> None"
proof -
  from assms(1) have "length ws \<le> length (takeWhile (isspace db) (ws @ s))"
    by (rule takeWhile_prefix_length)
  then have "length ws \<in> set (downfrom (length (takeWhile (isspace db) (ws @ s))) 0)"
    by (simp add: set_downfrom)
  moreover from assms(2) have "group_id db name (drop (length ws) (ws @ s)) \<noteq> None"
    by simp
  ultimately have "first_some (\<lambda>k. group_id db name (drop k (ws @ s)))
      (downfrom (length (takeWhile (isspace db) (ws @ s))) 0) \<noteq> None"
    by (rule first_some_found)
  then show ?thesis
    by (simp add: header_match_def)
qed

text \<open>
  Claim C5, as the code has it. The pattern is applied at the first character of
  the line and nothing is stripped before: a line that begins with \<^verbatim>\<open>#\<close>,
  optional whitespace, one or more characters other than a line feed, \<^verbatim>\<open>_\<close>,
  the name in any letter case, one or more decimal digits and then a word boundary
  is recognised as a header, for every name; a line that does not begin with
  \<^verbatim>\<open>#\<close>, such as one with whitespace before the \<^verbatim>\<open>#\<close>, is not.
\<close>

theorem header_match_at_line_start:
  assumes "list_all (isspace db) ws"
    and "pre \<noteq> []" and "10 \<notin> set pre"
    and "list_all2 (ieq db) name nm"
    and "ds \<noteq> []" and "list_all (isdecimal db) ds"
    and "is_word db (last ds) \<noteq> (rest \<noteq> [] \<and> is_word db (hd rest))"
  shows "header_match db name ([35] @ ws @ pre @ [95] @ nm @ ds @ rest) \<noteq> None
    \<and> (\<forall>line. \<not> startswith line [35] \<longrightarrow> header_match db name line = None)"
proof
  from assms(5-7) have "digits_then_boundary db (ds @ rest) \<noteq> None"
    by (rule digits_then_boundary_found)
  with assms(4) have "name_then_digits db name (95 # nm @ ds @ rest) \<noteq> None"
    by (rule name_then_digits_found)
  with assms(2,3) have "group_id db name (pre @ 95 # nm @ ds @ rest) \<noteq> None"
    by (rule group_id_found)
  with assms(1) have "header_match db name (35 # ws @ pre @ 95 # nm @ ds @ rest) \<noteq> None"
    by (rule header_match_found)
  then show "header_match db name ([35] @ ws @ pre @ [95] @ nm @ ds @ rest) \<noteq> None"
    by simp
next
  show "\<forall>line. \<not> startswith line [35] \<longrightarrow> header_match db name line = None"
    by (auto simp add: startswith_def header_match_def split: list.splits)
qed

text \<open>
  The line \<^verbatim>\<open># DLG_sherry001 x\<close> is a header for the name \<^verbatim>\<open>Sherry\<close>; the same
  line behind two spaces is not.
\<close>

theorem header_match_at_line_start_witness:
  "header_match latin1_db (py ''Sherry'') (py ''# DLG_sherry001 x'') \<noteq> None
   \<and> header_match latin1_db (py ''Sherry'') (py ''  # DLG_sherry001 x'') = None"
proof -
  have "header_match latin1_db (py ''Sherry'')
      ([35] @ py '' '' @ py ''DLG'' @ [95] @ py ''sherry'' @ py ''001'' @ py '' x'') \<noteq> None
    \<and> (\<forall>line. \<not> startswith line [35] \<longrightarrow> header_match latin1_db (py ''Sherry'') line = None)"
    by (rule header_match_at_line_start)
      (simp_all add: py_def latin1_tables is_word_def)
  moreover have "[35] @ py '' '' @ py ''DLG'' @ [95] @ py ''sherry'' @ py ''001'' @ py '' x''
      = py ''# DLG_sherry001 x''"
    by (simp add: py_def)
  moreover have "\<not> startswith (py ''  # DLG_sherry001 x'') [35]"
    by (simp add: py_def startswith_def)
  ultimately show ?thesis
    by simp
qed

text \<open>
  Claim C5 as stated fails: the line \<^verbatim>\<open>  # DLG_Sherry001\<close> matches once its leading
  whitespace is stripped, and \<^verbatim>\<open>header_re.match\<close> does not recognise the line
  itself.
\<close>

theorem header_leading_space_counterexample:
  "header_match latin1_db (py ''Sherry'') (lstrip latin1_db (py ''  # DLG_Sherry001''))
     = Some (py ''DLG_Sherry001'')
   \<and> header_match latin1_db (py ''Sherry'') (py ''  # DLG_Sherry001'') = None"
  by (simp add: py_def lstrip_def matcher_defs latin1_tables)

subsection \<open>The two fields of a record\<close>

lemma lstrip_chars_dropWhile:
  "lstrip_chars chars s = dropWhile (\<lambda>c. c \<in> set chars) s"
  by (induction s) simp_all

lemma orig_lines_raw_append:
  "orig_lines_raw db (xs @ ys) = orig_lines_raw db xs @ orig_lines_raw db ys"
  by (simp add: orig_lines_raw_def)

lemma rstrip_Cons:
  "rstrip db (c # s) =
     (if \<forall>x\<in>set s. isspace db x then (if isspace db c then [] else [c])
      else c # rstrip db s)"
  by (simp add: rstrip_def dropWhile_append)

lemma lstrip_Cons:
  "lstrip db (c # s) = (if isspace db c then lstrip db s else c # s)"
  by (simp add: lstrip_def)

lemma lstrip_blank: "\<forall>x\<in>set s. isspace db x \<Longrightarrow> lstrip db s = []"
  by (simp add: lstrip_def)

lemma lstrip_rstrip_commute:
  "lstrip db (rstrip db s) = rstrip db (lstrip db s)"
proof (induction s)
  case Nil
  show ?case
    by (simp add: lstrip_def rstrip_def)
next
  case (Cons c s)
  show ?case
  proof (cases "\<forall>x\<in>set s. isspace db x")
    case True
    then have l: "lstrip db s = []"
      by (rule lstrip_blank)
    have n: "lstrip db [] = []" "rstrip db [] = []"
      by (simp_all add: lstrip_def rstrip_def)
    from True l n show ?thesis
      by (simp add: rstrip_Cons lstrip_Cons)
  next
    case False
    with Cons.IH show ?thesis
      by (auto simp add: rstrip_Cons lstrip_Cons)
  qed
qed

lemma rstrip_idem: "rstrip db (rstrip db s) = rstrip db s"
proof -
  have "dropWhile (isspace db) (dropWhile (isspace db) (rev s)) = dropWhile (isspace db) (rev s)"
    by (rule dropWhile_idem)
  then show ?thesis
    by (simp add: rstrip_def)
qed

lemma strip_rstrip: "strip db (rstrip db s) = strip db s"
  by (simp add: strip_def lstrip_rstrip_commute rstrip_idem)

lemma orig_lines_raw_entry:
  "is_commentary db ln \<Longrightarrow>
     orig_lines_raw db [ln] = [rstrip db (dropWhile (\<lambda>c. c = 59 \<or> c = 32) ln)]"
  by (simp add: orig_lines_raw_def lstrip_chars_dropWhile py_semicolon_space)

text \<open>
  Claim C6, as the code has it. \<^verbatim>\<open>ln.lstrip('; ')\<close> takes its argument as a set
  of characters: the entry of a commentary line in the list of original lines is
  the unstripped line without its longest prefix made of \<^verbatim>\<open>;\<close> and space
  characters, right-trimmed. Every leading \<^verbatim>\<open>;\<close> and space goes, not only the
  first marker. The field \<^verbatim>\<open>orig\<close> of a block is made of the entries that do not
  match the marker pattern of the block, joined by line feeds and trimmed as a
  whole; for a block of one commentary line whose entry is no marker line, it is
  the line without that prefix, trimmed on both sides.
\<close>

theorem orig_contribution:
  "orig (block_item db bid bl) =
     strip db (join [10]
       (filter (\<lambda>e. \<not> marker_search db bid e)
          (map (\<lambda>ln. rstrip db (dropWhile (\<lambda>c. c = 59 \<or> c = 32) ln))
             (filter (is_commentary db) bl))))
   \<and> (is_commentary db ln \<longrightarrow>
        orig_lines_raw db (xs @ [ln] @ ys) =
          orig_lines_raw db xs @ [rstrip db (dropWhile (\<lambda>c. c = 59 \<or> c = 32) ln)]
            @ orig_lines_raw db ys)
   \<and> (is_commentary db ln
        \<and> \<not> marker_search db bid (rstrip db (dropWhile (\<lambda>c. c = 59 \<or> c = 32) ln)) \<longrightarrow>
        orig (block_item db bid [ln]) = strip db (dropWhile (\<lambda>c. c = 59 \<or> c = 32) ln))"
proof (intro conjI impI)
  show "orig (block_item db bid bl) =
     strip db (join [10]
       (filter (\<lambda>e. \<not> marker_search db bid e)
          (map (\<lambda>ln. rstrip db (dropWhile (\<lambda>c. c = 59 \<or> c = 32) ln))
             (filter (is_commentary db) bl))))"
    by (simp add: block_item_def orig_lines_def orig_lines_raw_def lstrip_chars_dropWhile
        py_semicolon_space)
next
  assume "is_commentary db ln"
  then have "orig_lines_raw db [ln] = [rstrip db (dropWhile (\<lambda>c. c = 59 \<or> c = 32) ln)]"
    by (rule orig_lines_raw_entry)
  then show "orig_lines_raw db (xs @ [ln] @ ys) =
      orig_lines_raw db xs @ [rstrip db (dropWhile (\<lambda>c. c = 59 \<or> c = 32) ln)]
        @ orig_lines_raw db ys"
    by (simp only: orig_lines_raw_append)
next
  assume a: "is_commentary db ln
    \<and> \<not> marker_search db bid (rstrip db (dropWhile (\<lambda>c. c = 59 \<or> c = 32) ln))"
  then have "orig_lines db bid [ln] = [rstrip db (dropWhile (\<lambda>c. c = 59 \<or> c = 32) ln)]"
    by (simp add: orig_lines_def orig_lines_raw_entry)
  then show "orig (block_item db bid [ln]) = strip db (dropWhile (\<lambda>c. c = 59 \<or> c = 32) ln)"
    by (simp add: block_item_def strip_rstrip)
qed

text \<open>
  The blocks of the single lines \<^verbatim>\<open>;; text\<close> (with two spaces behind), a tab
  before \<^verbatim>\<open>;; a\<close>, and \<^verbatim>\<open>; \<close> before a tab and \<^verbatim>\<open>a\<close>; and a block of
  three commentary lines, the second a marker line, the third behind a tab.
\<close>

theorem orig_contribution_witness:
  "orig (block_item latin1_db (py ''DLG_Sherry001'') [py '';; text  '']) = py ''text''
   \<and> orig (block_item latin1_db (py ''DLG_Sherry001'') [[9] @ py '';; a'']) = py '';; a''
   \<and> orig (block_item latin1_db (py ''DLG_Sherry001'') [py ''; '' @ [9] @ py ''a'']) = py ''a''
   \<and> orig (block_item latin1_db (py ''DLG_Sherry001'')
         [py ''; a'', py ''; |#DLG_Sherry001|'', [9] @ py '';; b  ''])
       = py ''a'' @ [10, 9] @ py '';; b''
   \<and> orig_lines_raw latin1_db [py '';; text  ''] = [py ''text'']"
proof -
  let ?bid = "py ''DLG_Sherry001''"
  have c1: "is_commentary latin1_db (py '';; text  '')
      \<and> \<not> marker_search latin1_db ?bid
          (rstrip latin1_db (dropWhile (\<lambda>c. c = 59 \<or> c = 32) (py '';; text  '')))"
    by (simp add: is_commentary_def string_defs matcher_defs latin1_tables)
  have e1: "strip latin1_db (dropWhile (\<lambda>c. c = 59 \<or> c = 32) (py '';; text  '')) = py ''text''"
    by (simp add: string_defs latin1_tables)
  have r1: "rstrip latin1_db (dropWhile (\<lambda>c. c = 59 \<or> c = 32) (py '';; text  '')) = py ''text''"
    by (simp add: string_defs latin1_tables)
  have c2: "is_commentary latin1_db ([9] @ py '';; a'')
      \<and> \<not> marker_search latin1_db ?bid
          (rstrip latin1_db (dropWhile (\<lambda>c. c = 59 \<or> c = 32) ([9] @ py '';; a'')))"
    by (simp add: is_commentary_def string_defs matcher_defs latin1_tables)
  have e2: "strip latin1_db (dropWhile (\<lambda>c. c = 59 \<or> c = 32) ([9] @ py '';; a'')) = py '';; a''"
    by (simp add: string_defs latin1_tables)
  have c3: "is_commentary latin1_db (py ''; '' @ [9] @ py ''a'')
      \<and> \<not> marker_search latin1_db ?bid
          (rstrip latin1_db (dropWhile (\<lambda>c. c = 59 \<or> c = 32) (py ''; '' @ [9] @ py ''a'')))"
    by (simp add: is_commentary_def string_defs matcher_defs latin1_tables)
  have e3: "strip latin1_db (dropWhile (\<lambda>c. c = 59 \<or> c = 32) (py ''; '' @ [9] @ py ''a''))
      = py ''a''"
    by (simp add: string_defs latin1_tables)
  have e4: "strip latin1_db (join [10]
       (filter (\<lambda>e. \<not> marker_search latin1_db ?bid e)
          (map (\<lambda>ln. rstrip latin1_db (dropWhile (\<lambda>c. c = 59 \<or> c = 32) ln))
             (filter (is_commentary latin1_db)
                [py ''; a'', py ''; |#DLG_Sherry001|'', [9] @ py '';; b  '']))))
      = py ''a'' @ [10, 9] @ py '';; b''"
    by (simp add: is_commentary_def string_defs matcher_defs latin1_tables)
  from orig_contribution [of latin1_db ?bid "[]" "py '';; text  ''" "[]" "[]",
      THEN conjunct2, THEN conjunct2, rule_format, OF c1]
  have w1: "orig (block_item latin1_db ?bid [py '';; text  '']) = py ''text''"
    by (simp only: e1)
  from c1 have "is_commentary latin1_db (py '';; text  '')"
    by simp
  from orig_contribution [of latin1_db ?bid "[]" "py '';; text  ''" "[]" "[]",
      THEN conjunct2, THEN conjunct1, rule_format, OF this]
  have w5: "orig_lines_raw latin1_db [py '';; text  ''] = [py ''text'']"
    by (simp add: r1 orig_lines_raw_def)
  from orig_contribution [of latin1_db ?bid "[]" "[9] @ py '';; a''" "[]" "[]",
      THEN conjunct2, THEN conjunct2, rule_format, OF c2]
  have w2: "orig (block_item latin1_db ?bid [[9] @ py '';; a'']) = py '';; a''"
    by (simp only: e2)
  from orig_contribution [of latin1_db ?bid "[]" "py ''; '' @ [9] @ py ''a''" "[]" "[]",
      THEN conjunct2, THEN conjunct2, rule_format, OF c3]
  have w3: "orig (block_item latin1_db ?bid [py ''; '' @ [9] @ py ''a'']) = py ''a''"
    by (simp only: e3)
  from orig_contribution [of latin1_db ?bid
      "[py ''; a'', py ''; |#DLG_Sherry001|'', [9] @ py '';; b  '']" "[]" "[]" "[]",
      THEN conjunct1]
  have w4: "orig (block_item latin1_db ?bid
      [py ''; a'', py ''; |#DLG_Sherry001|'', [9] @ py '';; b  ''])
    = py ''a'' @ [10, 9] @ py '';; b''"
    by (simp only: e4)
  from w1 w2 w3 w4 w5 show ?thesis
    by blast
qed

text \<open>
  Claim C6 as stated fails: the line \<^verbatim>\<open>;; text\<close> does not keep its second
  \<^verbatim>\<open>;\<close>, and \<^verbatim>\<open>; ; a\<close> does not keep \<^verbatim>\<open>; a\<close>.
\<close>

theorem orig_second_marker_counterexample:
  "orig (block_item latin1_db (py ''DLG_Sherry001'') [py '';; text'']) = py ''text''
   \<and> orig (block_item latin1_db (py ''DLG_Sherry001'') [py '';; text'']) \<noteq> py ''; text''
   \<and> orig (block_item latin1_db (py ''DLG_Sherry001'') [py ''; ; a'']) = py ''a''
   \<and> orig (block_item latin1_db (py ''DLG_Sherry001'') [py ''; ; a'']) \<noteq> py ''; a''"
  by (simp add: block_defs string_defs matcher_defs latin1_tables)


lemma dropWhile_all_iff:
  "(\<forall>c\<in>set (dropWhile P s). P c) \<longleftrightarrow> (\<forall>c\<in>set s. P c)"
  by (induction s) auto

lemma rstrip_blank_iff:
  "(\<forall>c\<in>set (rstrip db s). isspace db c) \<longleftrightarrow> (\<forall>c\<in>set s. isspace db c)"
  using dropWhile_all_iff [of "isspace db" "rev s"] by (simp add: rstrip_def)

lemma strip_empty_iff:
  "strip db s = [] \<longleftrightarrow> (\<forall>c\<in>set s. isspace db c)"
proof -
  have "strip db s = [] \<longleftrightarrow> (\<forall>c\<in>set (dropWhile (isspace db) s). isspace db c)"
    by (simp add: strip_def rstrip_def lstrip_def dropWhile_eq_Nil_conv)
  then show ?thesis
    by (simp add: dropWhile_all_iff)
qed

lemma set_join_subset:
  "set (join sep xs) \<subseteq> \<Union>(set ` set xs) \<union> set sep"
  by (induction sep xs rule: join.induct) auto

lemma set_join_member:
  "x \<in> set xs \<Longrightarrow> set x \<subseteq> set (join sep xs)"
  by (induction sep xs rule: join.induct) auto

lemma strip_join_empty_iff:
  assumes "isspace db 10"
  shows "strip db (join [10] xs) = [] \<longleftrightarrow> (\<forall>x\<in>set xs. strip db x = [])"
proof
  assume e: "strip db (join [10] xs) = []"
  show "\<forall>x\<in>set xs. strip db x = []"
  proof
    fix x assume "x \<in> set xs"
    then have "set x \<subseteq> set (join [10] xs)"
      by (rule set_join_member)
    with e show "strip db x = []"
      by (auto simp add: strip_empty_iff)
  qed
next
  assume a: "\<forall>x\<in>set xs. strip db x = []"
  have "\<forall>c\<in>set (join [10] xs). isspace db c"
  proof
    fix c assume "c \<in> set (join [10] xs)"
    with set_join_subset [of "[10]" xs] have "c = 10 \<or> (\<exists>x\<in>set xs. c \<in> set x)"
      by auto
    with a assms show "isspace db c"
      by (auto simp add: strip_empty_iff)
  qed
  then show "strip db (join [10] xs) = []"
    by (simp add: strip_empty_iff)
qed

lemma strip_join_nonempty:
  assumes "x \<in> set xs" and "strip db x \<noteq> []"
  shows "strip db (join sep xs) \<noteq> []"
proof -
  from assms(1) have "set x \<subseteq> set (join sep xs)"
    by (rule set_join_member)
  with assms(2) show ?thesis
    by (auto simp add: strip_empty_iff)
qed

lemma strip_rstrip_empty_iff:
  "strip db (rstrip db s) = [] \<longleftrightarrow> strip db s = []"
  by (simp add: strip_empty_iff rstrip_blank_iff)

lemma all_commentary_trans:
  "\<forall>ln\<in>set bl. is_commentary db ln \<Longrightarrow> trans (block_item db bid bl) = []"
proof -
  assume "\<forall>ln\<in>set bl. is_commentary db ln"
  then have "trans_lines db bl = []"
    by (simp add: trans_lines_def filter_empty_conv)
  then show ?thesis
    by (simp add: block_item_def strip_empty_iff)
qed

lemma no_commentary_orig:
  "\<forall>ln\<in>set bl. \<not> is_commentary db ln \<Longrightarrow> orig (block_item db bid bl) = []"
proof -
  assume "\<forall>ln\<in>set bl. \<not> is_commentary db ln"
  then have "orig_lines db bid bl = []"
    by (simp add: orig_lines_def orig_lines_raw_def filter_empty_conv)
  then show ?thesis
    by (simp add: block_item_def strip_empty_iff)
qed

lemma all_commentary_orig:
  assumes "isspace db 10" and "\<forall>ln\<in>set bl. is_commentary db ln"
  shows "orig (block_item db bid bl) \<noteq> [] \<longleftrightarrow>
    (\<exists>ln\<in>set bl. strip db (lstrip_chars (py ''; '') ln) \<noteq> []
       \<and> \<not> marker_search db bid (rstrip db (lstrip_chars (py ''; '') ln)))"
proof -
  from assms(2) have f: "filter (is_commentary db) bl = bl"
    by (simp add: filter_id_conv)
  have "orig (block_item db bid bl) \<noteq> [] \<longleftrightarrow>
      (\<exists>x\<in>set (orig_lines db bid bl). strip db x \<noteq> [])"
    using strip_join_empty_iff [OF assms(1), of "orig_lines db bid bl"]
    by (simp add: block_item_def)
  also have "\<dots> \<longleftrightarrow> (\<exists>ln\<in>set bl. strip db (lstrip_chars (py ''; '') ln) \<noteq> []
       \<and> \<not> marker_search db bid (rstrip db (lstrip_chars (py ''; '') ln)))"
    using f by (auto simp add: orig_lines_def orig_lines_raw_def strip_rstrip_empty_iff)
  finally show ?thesis .
qed

lemma no_commentary_trans:
  assumes "\<forall>ln\<in>set bl. \<not> is_commentary db ln"
  shows "trans (block_item db bid bl) \<noteq> [] \<longleftrightarrow> (\<exists>ln\<in>set bl. strip db ln \<noteq> [])"
proof
  assume "trans (block_item db bid bl) \<noteq> []"
  then have "trans_lines db bl \<noteq> []"
    by (auto simp add: block_item_def strip_empty_iff)
  then show "\<exists>ln\<in>set bl. strip db ln \<noteq> []"
    by (auto simp add: trans_lines_def filter_empty_conv)
next
  assume "\<exists>ln\<in>set bl. strip db ln \<noteq> []"
  then obtain ln where ln: "ln \<in> set bl" "strip db ln \<noteq> []"
    by blast
  with assms have "rstrip db ln \<in> set (trans_lines db bl)"
    by (simp add: trans_lines_def)
  moreover from ln(2) have "strip db (rstrip db ln) \<noteq> []"
    by (simp add: strip_rstrip_empty_iff)
  ultimately have "strip db (join [10] (trans_lines db bl)) \<noteq> []"
    by (rule strip_join_nonempty)
  then show "trans (block_item db bid bl) \<noteq> []"
    by (simp add: block_item_def)
qed

text \<open>
  Claim C7, as the code has it. A block whose raw lines are all commentary has an
  empty \<^verbatim>\<open>trans\<close>, and its \<^verbatim>\<open>orig\<close> is non-empty exactly when some line, once
  its leading \<^verbatim>\<open>;\<close> and spaces are removed, is not blank and does not match the
  marker pattern of the block. A block without commentary lines has an empty
  \<^verbatim>\<open>orig\<close>, and its \<^verbatim>\<open>trans\<close> is non-empty exactly when some line is not blank.
  The line feed that joins the lines is whitespace.
\<close>

theorem one_kind_of_lines:
  assumes "isspace db 10"
  shows "((\<forall>ln\<in>set bl. is_commentary db ln) \<longrightarrow>
      trans (block_item db bid bl) = []
      \<and> (orig (block_item db bid bl) \<noteq> [] \<longleftrightarrow>
          (\<exists>ln\<in>set bl. strip db (lstrip_chars (py ''; '') ln) \<noteq> []
             \<and> \<not> marker_search db bid (rstrip db (lstrip_chars (py ''; '') ln)))))
    \<and> ((\<forall>ln\<in>set bl. \<not> is_commentary db ln) \<longrightarrow>
      orig (block_item db bid bl) = []
      \<and> (trans (block_item db bid bl) \<noteq> [] \<longleftrightarrow> (\<exists>ln\<in>set bl. strip db ln \<noteq> [])))"
  using all_commentary_trans [of bl db bid] all_commentary_orig [OF assms, of bl bid]
    no_commentary_orig [of bl db bid] no_commentary_trans [of bl db bid]
  by blast

text \<open>The blocks made of the one line \<^verbatim>\<open>; hi\<close> and of the one line \<^verbatim>\<open>hi\<close>.\<close>

theorem one_kind_of_lines_witness:
  "trans (block_item latin1_db (py ''DLG_Sherry001'') [py ''; hi'']) = []
   \<and> orig (block_item latin1_db (py ''DLG_Sherry001'') [py ''; hi'']) \<noteq> []
   \<and> orig (block_item latin1_db (py ''DLG_Sherry001'') [py ''hi'']) = []
   \<and> trans (block_item latin1_db (py ''DLG_Sherry001'') [py ''hi'']) \<noteq> []"
proof -
  have sp: "isspace latin1_db 10"
    by (simp add: latin1_tables)
  have c: "\<forall>ln\<in>set [py ''; hi'']. is_commentary latin1_db ln"
    by (simp add: is_commentary_def string_defs latin1_tables)
  have k: "\<exists>ln\<in>set [py ''; hi'']. strip latin1_db (lstrip_chars (py ''; '') ln) \<noteq> []
      \<and> \<not> marker_search latin1_db (py ''DLG_Sherry001'')
            (rstrip latin1_db (lstrip_chars (py ''; '') ln))"
    by (simp add: string_defs matcher_defs latin1_tables)
  have n: "\<forall>ln\<in>set [py ''hi'']. \<not> is_commentary latin1_db ln"
    by (simp add: is_commentary_def string_defs latin1_tables)
  have b: "\<exists>ln\<in>set [py ''hi'']. strip latin1_db ln \<noteq> []"
    by (simp add: string_defs latin1_tables)
  from one_kind_of_lines [OF sp, of "[py ''; hi'']" "py ''DLG_Sherry001''"] c k
  have "trans (block_item latin1_db (py ''DLG_Sherry001'') [py ''; hi'']) = []
    \<and> orig (block_item latin1_db (py ''DLG_Sherry001'') [py ''; hi'']) \<noteq> []"
    by blast
  moreover from one_kind_of_lines [OF sp, of "[py ''hi'']" "py ''DLG_Sherry001''"] n b
  have "orig (block_item latin1_db (py ''DLG_Sherry001'') [py ''hi'']) = []
    \<and> trans (block_item latin1_db (py ''DLG_Sherry001'') [py ''hi'']) \<noteq> []"
    by blast
  ultimately show ?thesis
    by blast
qed

text \<open>
  Claim C7 as stated fails: the block of the one commentary line \<^verbatim>\<open>;\<close> has an
  empty \<^verbatim>\<open>orig\<close>, and the block of one line holding a single space, which is no
  commentary, has an empty \<^verbatim>\<open>trans\<close>.
\<close>

theorem one_kind_of_lines_counterexample:
  "list_all (is_commentary latin1_db) [py '';'']
   \<and> orig (block_item latin1_db (py ''DLG_Sherry001'') [py '';'']) = []
   \<and> list_all (\<lambda>ln. \<not> is_commentary latin1_db ln) [py '' '']
   \<and> trans (block_item latin1_db (py ''DLG_Sherry001'') [py '' '']) = []"
  by (simp add: block_defs string_defs matcher_defs latin1_tables)

subsection \<open>The marker line\<close>

lemma orig_lines_append:
  "orig_lines db bid (xs @ ys) = orig_lines db bid xs @ orig_lines db bid ys"
  by (simp add: orig_lines_def orig_lines_raw_def)

lemma marker_line_no_orig:
  "orig_lines latin1_db (py ''DLG_Sherry001'') [py ''| Name: |#DLG_Sherry001| |''] = []"
  by (simp add: block_defs string_defs latin1_tables)

lemma marker_comment_no_orig:
  "orig_lines latin1_db (py ''DLG_Sherry001'') [py ''; | Name: |#DLG_Sherry001| |''] = []"
  by (simp add: block_defs string_defs matcher_defs latin1_tables)

lemma marker_line_found:
  "marker_search latin1_db (py ''DLG_Sherry001'') (py ''| Name: |#DLG_Sherry001| |'')"
  by (simp add: string_defs matcher_defs latin1_tables)

lemma marker_line_trans:
  "trans (block_item latin1_db (py ''DLG_Sherry001'') [py ''| Name: |#DLG_Sherry001| |''])
     = py ''| Name: |#DLG_Sherry001| |''"
  by (simp add: block_item_def trans_lines_def is_commentary_def string_defs latin1_tables)

text \<open>
  Claim C9. For the block with the id \<^verbatim>\<open>DLG_Sherry001\<close>, the raw line
  \<^verbatim>\<open>| Name: |#DLG_Sherry001| |\<close> matches the marker pattern of the block and adds
  nothing to \<^verbatim>\<open>orig\<close>, wherever it stands among the raw lines; the same holds
  for the line written as commentary, \<^verbatim>\<open>; | Name: |#DLG_Sherry001| |\<close>, which
  the marker pattern removes. The raw line itself does not begin with \<^verbatim>\<open>;\<close>: it
  is a translation line, and alone in a block it is the \<^verbatim>\<open>trans\<close> of the record.
\<close>

theorem marker_line_excluded:
  "marker_search latin1_db (py ''DLG_Sherry001'') (py ''| Name: |#DLG_Sherry001| |'')
   \<and> orig (block_item latin1_db (py ''DLG_Sherry001'')
              (pre @ [py ''| Name: |#DLG_Sherry001| |''] @ post))
       = orig (block_item latin1_db (py ''DLG_Sherry001'') (pre @ post))
   \<and> orig (block_item latin1_db (py ''DLG_Sherry001'')
              (pre @ [py ''; | Name: |#DLG_Sherry001| |''] @ post))
       = orig (block_item latin1_db (py ''DLG_Sherry001'') (pre @ post))
   \<and> trans (block_item latin1_db (py ''DLG_Sherry001'') [py ''| Name: |#DLG_Sherry001| |''])
       = py ''| Name: |#DLG_Sherry001| |''"
proof -
  have a: "orig_lines latin1_db (py ''DLG_Sherry001'')
      (pre @ [py ''| Name: |#DLG_Sherry001| |''] @ post)
    = orig_lines latin1_db (py ''DLG_Sherry001'') (pre @ post)"
    by (simp only: orig_lines_append marker_line_no_orig append_Nil)
  have b: "orig_lines latin1_db (py ''DLG_Sherry001'')
      (pre @ [py ''; | Name: |#DLG_Sherry001| |''] @ post)
    = orig_lines latin1_db (py ''DLG_Sherry001'') (pre @ post)"
    by (simp only: orig_lines_append marker_comment_no_orig append_Nil)
  from a have "orig (block_item latin1_db (py ''DLG_Sherry001'')
      (pre @ [py ''| Name: |#DLG_Sherry001| |''] @ post))
    = orig (block_item latin1_db (py ''DLG_Sherry001'') (pre @ post))"
    by (simp only: block_item_def item.simps)
  moreover from b have "orig (block_item latin1_db (py ''DLG_Sherry001'')
      (pre @ [py ''; | Name: |#DLG_Sherry001| |''] @ post))
    = orig (block_item latin1_db (py ''DLG_Sherry001'') (pre @ post))"
    by (simp only: block_item_def item.simps)
  ultimately show ?thesis
    using marker_line_found marker_line_trans by blast
qed

subsection \<open>The directory walk\<close>

lemma extract_files_out:
  "extract_files db cs name files out = Inr res \<Longrightarrow>
     res = out @ concat (map (\<lambda>text. filter keep_item (extract_from_text db text name))
                          (file_texts db cs files))"
proof (induction files arbitrary: out)
  case Nil
  then show ?case
    by (simp add: file_texts_def)
next
  case (Cons f files)
  obtain fn content where f: "f = (fn, content)"
    by (cases f)
  have t: "file_texts db cs (f # files) = file_texts db cs [f] @ file_texts db cs files"
    by (simp add: file_texts_def)
  show ?case
  proof (cases "skip_file db fn")
    case True
    with Cons.prems f have "extract_files db cs name files out = Inr res"
      by simp
    from Cons.IH [OF this] True f show ?thesis
      by (simp add: t) (simp add: file_texts_def)
  next
    case False
    with Cons.prems f obtain b where b: "content = Some b"
      by (cases content) simp_all
    show ?thesis
    proof (cases "read_text_try cs b")
      case None
      with Cons.prems f False b have "extract_files db cs name files out = Inr res"
        by simp
      from Cons.IH [OF this] None False f b show ?thesis
        by (simp add: t) (simp add: file_texts_def)
    next
      case (Some r)
      obtain tx enc where r: "r = (tx, enc)"
        by (cases r)
      with Cons.prems f False b Some
      have "extract_files db cs name files
          (out @ filter keep_item (extract_from_text db tx name)) = Inr res"
        by simp
      from Cons.IH [OF this] Some r False f b show ?thesis
        by (simp add: t) (simp add: file_texts_def)
    qed
  qed
qed

lemma walk_dirs_out:
  "walk_dirs db cs name root out = Inr res \<Longrightarrow>
     res = out @ concat (map (\<lambda>text. filter keep_item (extract_from_text db text name))
                          (scanned_texts db cs root))"
proof (induction root arbitrary: out)
  case Nil
  then show ?case
    by (simp add: scanned_texts_def)
next
  case (Cons d root)
  obtain dirpath dirs files where d: "d = (dirpath, dirs, files)"
    by (cases d)
  have t: "scanned_texts db cs (d # root) = scanned_texts db cs [d] @ scanned_texts db cs root"
    by (simp add: scanned_texts_def)
  show ?case
  proof (cases "skip_dir db dirpath")
    case True
    with Cons.prems d have "walk_dirs db cs name root out = Inr res"
      by simp
    from Cons.IH [OF this] True d show ?thesis
      by (simp add: t) (simp add: scanned_texts_def)
  next
    case False
    with Cons.prems d obtain mid where mid: "extract_files db cs name files out = Inr mid"
      and rest: "walk_dirs db cs name root mid = Inr res"
      by (cases "extract_files db cs name files out") simp_all
    from extract_files_out [OF mid] Cons.IH [OF rest] False d show ?thesis
      by (simp add: t) (simp add: scanned_texts_def)
  qed
qed

lemma two_header_lines:
  "splitlines two_header_text = [py ''# DLG_Sherry001'', py ''# DLG_Sherry002'', py ''; Hi.'']"
  by (simp add: two_header_text_def splitlines_def is_linebreak_def py_def)

lemma sherry2_header:
  "header_match latin1_db (py ''Sherry'') (py ''# DLG_Sherry002'') = Some (py ''DLG_Sherry002'')"
  by (simp add: py_def matcher_defs latin1_tables)

lemma sherry1_empty_item:
  "block_item latin1_db (strip latin1_db (py ''DLG_Sherry001'')) []
     = \<lparr>id_str = py ''DLG_Sherry001'', orig = [], trans = []\<rparr>"
  by (simp add: block_defs string_defs latin1_tables)

lemma sherry2_item:
  "block_item latin1_db (strip latin1_db (py ''DLG_Sherry002'')) [py ''; Hi.'']
     = \<lparr>id_str = py ''DLG_Sherry002'', orig = py ''Hi.'', trans = []\<rparr>"
  by (simp add: block_defs string_defs matcher_defs latin1_tables)

lemma two_header_extents:
  "block_extent [py ''# DLG_Sherry001'', py ''# DLG_Sherry002'', py ''; Hi.''] 0 = []"
  "block_extent [py ''# DLG_Sherry001'', py ''# DLG_Sherry002'', py ''; Hi.''] (Suc 0)
     = [py ''; Hi.'']"
  by (simp_all add: block_extent_def startswith_def py_def)

lemma two_header_extract:
  "extract_from_text latin1_db two_header_text (py ''Sherry'')
     = [\<lparr>id_str = py ''DLG_Sherry001'', orig = [], trans = []\<rparr>,
        \<lparr>id_str = py ''DLG_Sherry002'', orig = py ''Hi.'', trans = []\<rparr>]"
proof -
  let ?lines = "[py ''# DLG_Sherry001'', py ''# DLG_Sherry002'', py ''; Hi.'']"
  let ?i1 = "\<lparr>id_str = py ''DLG_Sherry001'', orig = [], trans = []\<rparr>"
  let ?i2 = "\<lparr>id_str = py ''DLG_Sherry002'', orig = py ''Hi.'', trans = []\<rparr>"
  have s0: "scan_step latin1_db (py ''Sherry'') ?lines (0, []) = (1, [?i1])"
    by (simp add: scan_step_eq sherry_header two_header_extents sherry1_empty_item)
  have s1: "scan_step latin1_db (py ''Sherry'') ?lines (Suc 0, [?i1]) = (3, [?i1, ?i2])"
    by (simp add: scan_step_eq sherry2_header two_header_extents sherry2_item)
  have "scan latin1_db (py ''Sherry'') ?lines (3, [?i1, ?i2]) = [?i1, ?i2]"
    by (simp add: scan.simps [of _ _ _ "(3, [?i1, ?i2])"])
  then have "scan latin1_db (py ''Sherry'') ?lines (Suc 0, [?i1]) = [?i1, ?i2]"
    by (simp add: scan.simps [of _ _ _ "(Suc 0, [?i1])"] s1)
  then have "scan latin1_db (py ''Sherry'') ?lines (0, []) = [?i1, ?i2]"
    by (simp add: scan.simps [of _ _ _ "(0, [])"] s0)
  then show ?thesis
    by (simp add: extract_from_text_def two_header_lines)
qed

text \<open>
  Claim C8. When \<^verbatim>\<open>walk_and_extract\<close> returns, every record of its output has a
  non-empty \<^verbatim>\<open>orig\<close> or a non-empty \<^verbatim>\<open>trans\<close>, and the output is, file after
  file in the order of the walk, what \<^verbatim>\<open>extract_from_text\<close> returned with exactly
  the records of two empty fields taken out: a record with one non-empty field
  stays, whichever field it is. The filter is the caller's: on a header directly
  followed by another one \<^verbatim>\<open>extract_from_text\<close> itself returns the record with
  both fields empty.
\<close>

theorem walk_keeps_nonempty:
  assumes "walk_and_extract db cs root name = Inr out"
  shows "(\<forall>it\<in>set out. orig it \<noteq> [] \<or> trans it \<noteq> [])
    \<and> out = concat (map (\<lambda>text. filter (\<lambda>it. orig it \<noteq> [] \<or> trans it \<noteq> [])
                                   (extract_from_text db text name))
                      (scanned_texts db cs root))
    \<and> extract_from_text latin1_db two_header_text (py ''Sherry'')
        = [\<lparr>id_str = py ''DLG_Sherry001'', orig = [], trans = []\<rparr>,
           \<lparr>id_str = py ''DLG_Sherry002'', orig = py ''Hi.'', trans = []\<rparr>]"
proof -
  have k: "keep_item = (\<lambda>it. orig it \<noteq> [] \<or> trans it \<noteq> [])"
    by (auto simp add: keep_item_def fun_eq_iff)
  from assms have "walk_dirs db cs name root [] = Inr out"
    by (simp add: walk_and_extract_def)
  from walk_dirs_out [OF this]
  have o: "out = concat (map (\<lambda>text. filter (\<lambda>it. orig it \<noteq> [] \<or> trans it \<noteq> [])
                                   (extract_from_text db text name))
                      (scanned_texts db cs root))"
    by (simp add: k)
  have "\<forall>it\<in>set out. orig it \<noteq> [] \<or> trans it \<noteq> []"
    by (subst o) auto
  with o two_header_extract show ?thesis
    by blast
qed

lemma two_header_decode:
  "read_text_try ascii_codecs (encode_ascii two_header_text) = Some (two_header_text, UTF8)"
  by (simp add: read_text_try_def ENCODINGS_def decode_def ascii_codecs_def encode_ascii_def
      two_header_text_def py_def)

lemma dot_not_skipped: "\<not> skip_dir latin1_db (py ''.'')"
  by (simp add: skip_dir_def contains_def startswith_def py_def latin1_tables)

lemma a_txt_not_skipped: "\<not> skip_file latin1_db (py ''a.txt'')"
  by (simp add: skip_file_def endswith_def py_def latin1_tables)

text \<open>
  A tree of one directory with the one file \<^verbatim>\<open>a.txt\<close> holding the two-header
  text: of the two records, the walk keeps the second.
\<close>

theorem walk_keeps_nonempty_witness:
  "walk_and_extract latin1_db ascii_codecs
     [(py ''.'', [], [(py ''a.txt'', Some (encode_ascii two_header_text))])] (py ''Sherry'')
     = Inr [\<lparr>id_str = py ''DLG_Sherry002'', orig = py ''Hi.'', trans = []\<rparr>]
   \<and> [\<lparr>id_str = py ''DLG_Sherry002'', orig = py ''Hi.'', trans = []\<rparr>]
     = concat (map (\<lambda>text. filter (\<lambda>it. orig it \<noteq> [] \<or> trans it \<noteq> [])
                                   (extract_from_text latin1_db text (py ''Sherry'')))
         (scanned_texts latin1_db ascii_codecs
            [(py ''.'', [], [(py ''a.txt'', Some (encode_ascii two_header_text))])]))"
proof -
  have n: "py ''Hi.'' \<noteq> []"
    by (simp add: py_def)
  have w: "walk_and_extract latin1_db ascii_codecs
     [(py ''.'', [], [(py ''a.txt'', Some (encode_ascii two_header_text))])] (py ''Sherry'')
     = Inr [\<lparr>id_str = py ''DLG_Sherry002'', orig = py ''Hi.'', trans = []\<rparr>]"
    by (simp add: walk_and_extract_def dot_not_skipped a_txt_not_skipped two_header_decode
        two_header_extract keep_item_def n)
  from walk_keeps_nonempty [OF w] w show ?thesis
    by blast
qed

end
